theory Spec2Isabelle
  imports Complex_Main "HOL-Library.Multiset"
begin

section \<open>The export list of the csg bundle\<close>

text \<open>
  The bundle's index file re-exports a fixed list of bindings from its \<open>functions\<close>
  file. The list is kept in the order of the source.
\<close>

definition exports :: "string list" where
  "exports =
    [''area'', ''black'', ''blue'', ''cone'', ''crimson'', ''cube'', ''cyan'', ''cylinder'',
     ''geodesic_sphere'', ''gray'', ''green'', ''group'', ''intersect'', ''is_shape'',
     ''lime'', ''navy'', ''orange'', ''pink'', ''prism'', ''purple'', ''pyramid'', ''render'',
     ''render_axis'', ''render_grid'', ''render_grid_axis'', ''rose'', ''rotate'',
     ''rounded_cube'', ''rounded_cylinder'', ''scale'', ''shape_center'',
     ''shape_set_center'', ''silver'', ''sphere'', ''star'', ''store'', ''subtract'',
     ''teal'', ''torus'', ''translate'', ''union'', ''volume'', ''white'', ''yellow'']"

definition exported :: "string \<Rightarrow> bool" where
  "exported name = (name \<in> set exports)"


section \<open>The animation canvas for 3D curves\<close>

text \<open>
  JavaScript numbers are modelled as reals. Of the non-finite values only the one the
  constructor can produce from a real frame rate is kept: \<open>1000 / 0\<close> is \<open>Infinity\<close>.
\<close>

datatype jsnum = Num real | PosInf

fun js_less :: "real \<Rightarrow> jsnum \<Rightarrow> bool" where
  "js_less x (Num y) = (x < y)"
| "js_less x PosInf = True"

fun js_geq :: "real \<Rightarrow> jsnum \<Rightarrow> bool" where
  "js_geq x (Num y) = (y \<le> x)"
| "js_geq x PosInf = False"

definition js_div :: "real \<Rightarrow> real \<Rightarrow> jsnum" where
  "js_div x y = (if y = 0 then PosInf else Num (x / y))"

text \<open>\<open>Math.round\<close>: the nearest integer, halves rounded towards plus infinity.\<close>

definition Math_round :: "real \<Rightarrow> real" where
  "Math_round x = of_int \<lfloor>x + 1 / 2\<rfloor>"

text \<open>
  \<open>callbackTimestamp\<close> is \<open>number | null\<close>. The test \<open>!this.callbackTimestamp\<close> holds
  for \<open>null\<close> and for \<open>0\<close>; in arithmetic \<open>null\<close> counts as \<open>0\<close>.
\<close>

fun js_not :: "real option \<Rightarrow> bool" where
  "js_not None = True"
| "js_not (Some c) = (c = 0)"

fun to_number :: "real option \<Rightarrow> real" where
  "to_number None = 0"
| "to_number (Some c) = c"

text \<open>The part of the \<open>AnimatedCurve\<close> prop that the component reads or writes.\<close>

record AnimatedCurve =
  duration :: real
  fps :: real
  angle :: real

text \<open>
  What the component does to the outside: a frame drawn on the canvas (with the time in
  seconds handed to \<open>getFrame\<close>) and a call of \<open>requestAnimationFrame\<close>.
\<close>

datatype effect = is_DrawFrame: DrawFrame real | ReqFrame

text \<open>
  The React state (first five fields), the instance fields, the prop, and the trace of
  effects so far. \<open>canvas\<close> tells whether \<open>this.canvas\<close> is set.
\<close>

record component =
  animTimestamp :: real
  isPlaying :: bool
  wasPlaying :: bool
  isAutoLooping :: bool
  displayAngle :: real
  canvas :: bool
  frameDuration :: jsnum
  animationDuration :: real
  callbackTimestamp :: "real option"
  animation :: AnimatedCurve
  trace :: "effect list"

definition constructor :: "AnimatedCurve \<Rightarrow> component" where
  "constructor props =
    \<lparr> animTimestamp = 0,
      isPlaying = False,
      wasPlaying = False,
      isAutoLooping = True,
      displayAngle = 0,
      canvas = False,
      frameDuration = js_div 1000 (fps props),
      animationDuration = Math_round (duration props * 1000),
      callbackTimestamp = None,
      animation = props,
      trace = [] \<rparr>"

definition drawFrame :: "component \<Rightarrow> component" where
  "drawFrame s =
    (if canvas s then s\<lparr>trace := trace s @ [DrawFrame (animTimestamp s / 1000)]\<rparr> else s)"

definition reqFrame :: "component \<Rightarrow> component" where
  "reqFrame s = s\<lparr>trace := trace s @ [ReqFrame]\<rparr>"

text \<open>
  Every handler calls \<open>setState\<close> once, as its last statement, so the update followed by
  its completion callback is modelled as one step.
\<close>

definition animationCallback :: "real \<Rightarrow> component \<Rightarrow> component" where
  "animationCallback timeInMs s =
    (if \<not> canvas s \<or> \<not> isPlaying s then s
     else if js_not (callbackTimestamp s) then
       reqFrame (drawFrame (s\<lparr>callbackTimestamp := Some timeInMs\<rparr>))
     else
       let currentFrame = timeInMs - to_number (callbackTimestamp s) in
       if js_less currentFrame (frameDuration s) then reqFrame s
       else
         let s1 = s\<lparr>callbackTimestamp := Some timeInMs\<rparr> in
         if animTimestamp s1 \<ge> animationDuration s1 then
           (if isAutoLooping s1 then reqFrame (s1\<lparr>animTimestamp := 0\<rparr>)
            else (s1\<lparr>isPlaying := False\<rparr>)\<lparr>callbackTimestamp := None\<rparr>)
         else
           reqFrame ((drawFrame s1)\<lparr>animTimestamp := animTimestamp s1 + currentFrame\<rparr>))"

definition onPlayButtonClick :: "component \<Rightarrow> component" where
  "onPlayButtonClick s =
    (if isPlaying s then (s\<lparr>isPlaying := False\<rparr>)\<lparr>callbackTimestamp := None\<rparr>
     else reqFrame (s\<lparr>isPlaying := True\<rparr>))"

definition onResetButtonClick :: "component \<Rightarrow> component" where
  "onResetButtonClick s =
    (let s1 = s\<lparr>animTimestamp := 0\<rparr>;
         s2 = (if isPlaying s1 then onPlayButtonClick s1 else s1)
     in drawFrame s2)"

definition onTimeSliderChange :: "real \<Rightarrow> component \<Rightarrow> component" where
  "onTimeSliderChange newValue s =
    (let s1 = s\<lparr>callbackTimestamp := None\<rparr>;
         s2 = s1\<lparr>wasPlaying := isPlaying s1, isPlaying := False, animTimestamp := newValue\<rparr>
     in drawFrame s2)"

definition onTimeSliderRelease :: "component \<Rightarrow> component" where
  "onTimeSliderRelease s =
    (let s1 = s\<lparr>isPlaying := wasPlaying s\<rparr>
     in if \<not> isPlaying s1 then s1\<lparr>callbackTimestamp := None\<rparr> else reqFrame s1)"

definition onAngleSliderChange :: "real \<Rightarrow> component \<Rightarrow> component" where
  "onAngleSliderChange newAngle s =
    (let s1 = s\<lparr>displayAngle := newAngle\<rparr>;
         s2 = s1\<lparr>animation := (animation s1)\<lparr>angle := newAngle\<rparr>\<rparr>
     in if isPlaying s2 then reqFrame s2 else drawFrame s2)"

definition onSwitchChange :: "component \<Rightarrow> component" where
  "onSwitchChange s = s\<lparr>isAutoLooping := \<not> isAutoLooping s\<rparr>"

text \<open>
  The ref callback of \<open>render\<close> stores the canvas element, or null. React calls it
  with the element when the component mounts, before \<open>componentDidMount\<close>.
\<close>

definition canvasRef :: "bool \<Rightarrow> component \<Rightarrow> component" where
  "canvasRef r s = s\<lparr>canvas := r\<rparr>"

definition componentDidMount :: "component \<Rightarrow> component" where
  "componentDidMount s = drawFrame s"

text \<open>The events the component reacts to, and a run of the component over a list of them.\<close>

datatype event =
    Mount
  | AnimationFrame real
  | PlayButtonClick
  | ResetButtonClick
  | TimeSliderChange real
  | TimeSliderRelease
  | AngleSliderChange real
  | SwitchChange

fun handle :: "event \<Rightarrow> component \<Rightarrow> component" where
  "handle Mount s = componentDidMount (canvasRef True s)"
| "handle (AnimationFrame t) s = animationCallback t s"
| "handle PlayButtonClick s = onPlayButtonClick s"
| "handle ResetButtonClick s = onResetButtonClick s"
| "handle (TimeSliderChange v) s = onTimeSliderChange v s"
| "handle TimeSliderRelease s = onTimeSliderRelease s"
| "handle (AngleSliderChange v) s = onAngleSliderChange v s"
| "handle SwitchChange s = onSwitchChange s"

definition run :: "event list \<Rightarrow> component \<Rightarrow> component" where
  "run evs s = foldl (\<lambda>s e. handle e s) s evs"

text \<open>The effects a step added, and whether a frame was drawn among them.\<close>

definition new_effects :: "component \<Rightarrow> component \<Rightarrow> effect list" where
  "new_effects s s' = drop (length (trace s)) (trace s')"

definition draws :: "component \<Rightarrow> component \<Rightarrow> bool" where
  "draws s s' = list_ex is_DrawFrame (new_effects s s')"

text \<open>
  A frame is due at time \<open>t\<close>: the canvas is there, the animation plays, an earlier
  callback has left its timestamp, and a frame's duration has passed since then.
\<close>

definition frame_due :: "real \<Rightarrow> component \<Rightarrow> bool" where
  "frame_due t s =
    (canvas s \<and> isPlaying s \<and> \<not> js_not (callbackTimestamp s)
     \<and> js_geq (t - to_number (callbackTimestamp s)) (frameDuration s))"

text \<open>A mounted component for a two-second animation at 25 frames per second, playing.\<close>

definition playing_example :: component where
  "playing_example =
    run [Mount, PlayButtonClick] (constructor \<lparr>duration = 2, fps = 25, angle = 0\<rparr>)"

text \<open>
  The same component scrubbed to the end of the animation and started again; the first
  callback came at 1000 ms.
\<close>

definition ended_example :: component where
  "ended_example =
    run [Mount, TimeSliderChange 2000, TimeSliderRelease, PlayButtonClick, AnimationFrame 1000]
      (constructor \<lparr>duration = 2, fps = 25, angle = 0\<rparr>)"


section \<open>The geometry kernel\<close>

text \<open>
  The index re-exports the kernel's interface from the bundle's \<open>functions\<close> file,
  and that file is not among the sources. What this section defines of the kernel follows
  the kernel's written specification instead. Numbers are reals, so a tolerance of the
  specification is met when two values are equal.
\<close>

subsection \<open>Vectors and matrices\<close>

text \<open>
  Modelled from the spec: the Vector3 and Matrix4 of section 3, whose code is in the
  missing \<open>functions\<close> file. A matrix is given by its four rows and moves a point
  as an affine map.
\<close>

type_synonym Vector3 = "real \<times> real \<times> real"

fun vadd :: "Vector3 \<Rightarrow> Vector3 \<Rightarrow> Vector3" where
  "vadd (a1, a2, a3) (b1, b2, b3) = (a1 + b1, a2 + b2, a3 + b3)"

fun vsub :: "Vector3 \<Rightarrow> Vector3 \<Rightarrow> Vector3" where
  "vsub (a1, a2, a3) (b1, b2, b3) = (a1 - b1, a2 - b2, a3 - b3)"

fun smult :: "real \<Rightarrow> Vector3 \<Rightarrow> Vector3" where
  "smult k (a1, a2, a3) = (k * a1, k * a2, k * a3)"

fun dot :: "Vector3 \<Rightarrow> Vector3 \<Rightarrow> real" where
  "dot (a1, a2, a3) (b1, b2, b3) = a1 * b1 + a2 * b2 + a3 * b3"

fun cross :: "Vector3 \<Rightarrow> Vector3 \<Rightarrow> Vector3" where
  "cross (a1, a2, a3) (b1, b2, b3) =
     (a2 * b3 - a3 * b2, a3 * b1 - a1 * b3, a1 * b2 - a2 * b1)"

definition vnorm :: "Vector3 \<Rightarrow> real" where
  "vnorm v = sqrt (dot v v)"

definition vsum :: "Vector3 list \<Rightarrow> Vector3" where
  "vsum vs = foldr vadd vs (0, 0, 0)"

type_synonym Row4 = "real \<times> real \<times> real \<times> real"
type_synonym Matrix4 = "Row4 \<times> Row4 \<times> Row4 \<times> Row4"

fun row_apply :: "Row4 \<Rightarrow> Vector3 \<Rightarrow> real" where
  "row_apply (a, b, c, d) (x, y, z) = a * x + b * y + c * z + d"

fun transform_point :: "Matrix4 \<Rightarrow> Vector3 \<Rightarrow> Vector3" where
  "transform_point (r1, r2, r3, r4) p = (row_apply r1 p, row_apply r2 p, row_apply r3 p)"

fun translation :: "Vector3 \<Rightarrow> Matrix4" where
  "translation (x, y, z) = ((1, 0, 0, x), (0, 1, 0, y), (0, 0, 1, z), (0, 0, 0, 1))"

fun scaling :: "Vector3 \<Rightarrow> Matrix4" where
  "scaling (x, y, z) = ((x, 0, 0, 0), (0, y, 0, 0), (0, 0, z, 0), (0, 0, 0, 1))"

subsection \<open>Meshes and their metrics\<close>

text \<open>
  Modelled from the spec: the Mesh of section 3 after triangulation (its code is in the
  missing \<open>functions\<close> file), as a list of triangles with their vertices in winding
  order. Vertex normals are left out.
\<close>

type_synonym Triangle = "Vector3 \<times> Vector3 \<times> Vector3"
type_synonym Mesh = "Triangle list"

fun transform_triangle :: "Matrix4 \<Rightarrow> Triangle \<Rightarrow> Triangle" where
  "transform_triangle m (a, b, c) =
     (transform_point m a, transform_point m b, transform_point m c)"

fun tri_edges :: "Triangle \<Rightarrow> (Vector3 \<times> Vector3) list" where
  "tri_edges (a, b, c) = [(a, b), (b, c), (c, a)]"

definition mesh_edges :: "Mesh \<Rightarrow> (Vector3 \<times> Vector3) list" where
  "mesh_edges m = concat (map tri_edges m)"

text \<open>
  Modelled from the spec: the watertightness invariant of section 3, which the missing
  kernel keeps for every mesh: every edge is shared by exactly two triangles with opposite
  orientation. Each directed edge occurs once, and so does its reverse.
  \<open>edge_balanced\<close> is the weaker fact the proofs use: every directed edge occurs as
  often as its reverse.
\<close>

definition watertight :: "Mesh \<Rightarrow> bool" where
  "watertight m =
    list_all
      (\<lambda>e. count_list (mesh_edges m) e = 1 \<and> count_list (mesh_edges m) (prod.swap e) = 1)
      (mesh_edges m)"

definition edge_balanced :: "(Vector3 \<times> Vector3) list \<Rightarrow> bool" where
  "edge_balanced es = (mset es = mset (map prod.swap es))"

text \<open>
  Modelled from the spec: the error kinds of section 7 and the metrics of section 4.5,
  whose code is in the missing \<open>functions\<close> file. The volume is a sixth of the sum of
  \<open>v0 . (v1 x v2)\<close> over the triangles, the area the sum of the triangle areas
  \<open>|(v1 - v0) x (v2 - v0)| / 2\<close>, the centroid the first moment of the same
  tetrahedra (each with centroid \<open>(v0 + v1 + v2) / 4\<close>) over the volume; it fails
  with \<open>DegenerateMesh\<close> when the volume is within \<open>eps\<close> of zero.
\<close>

datatype GeometryError = InvalidParameter | DegenerateMesh | NonManifoldResult | TypeMismatch

fun signed_tetrahedron :: "Triangle \<Rightarrow> real" where
  "signed_tetrahedron (a, b, c) = dot a (cross b c)"

definition mesh_volume :: "Mesh \<Rightarrow> real" where
  "mesh_volume m = (1 / 6) * sum_list (map signed_tetrahedron m)"

fun triangle_area :: "Triangle \<Rightarrow> real" where
  "triangle_area (a, b, c) = (1 / 2) * vnorm (cross (vsub b a) (vsub c a))"

definition mesh_area :: "Mesh \<Rightarrow> real" where
  "mesh_area m = sum_list (map triangle_area m)"

fun first_moment :: "Triangle \<Rightarrow> Vector3" where
  "first_moment (a, b, c) = smult (signed_tetrahedron (a, b, c) / 24) (vadd a (vadd b c))"

definition mesh_centroid :: "real \<Rightarrow> Mesh \<Rightarrow> GeometryError + Vector3" where
  "mesh_centroid eps m =
    (if \<bar>mesh_volume m\<bar> < eps then Inl DegenerateMesh
     else Inr (smult (1 / mesh_volume m) (vsum (map first_moment m))))"

text \<open>
  What an edge from \<open>a\<close> to \<open>b\<close> adds to the first moment when the mesh
  moves by \<open>d\<close>; the terms of an edge and of its reverse cancel.
\<close>

fun edge_term :: "Vector3 \<Rightarrow> Vector3 \<times> Vector3 \<Rightarrow> Vector3" where
  "edge_term d (a, b) =
     smult (dot d (cross a b)) (vadd (smult (1 / 24) (vadd a b)) (smult (1 / 8) d))"

subsection \<open>The primitive generator\<close>

text \<open>Modelled from the spec: the primitive kinds of section 3.\<close>

datatype PrimitiveKind =
  Cube | Sphere | Cylinder | Cone | Prism | Pyramid | Torus | Star | GeodesicSphere
  | RoundedCube | RoundedCylinder

text \<open>
  Modelled from the spec: the cube of section 4.1, whose generator is in the missing
  \<open>functions\<close> file: six quads split into twelve triangles, centred at the origin,
  every face wound counter-clockwise seen from outside.
\<close>

definition quad :: "Vector3 \<Rightarrow> Vector3 \<Rightarrow> Vector3 \<Rightarrow> Vector3 \<Rightarrow> Mesh" where
  "quad p0 p1 p2 p3 = [(p0, p1, p2), (p0, p2, p3)]"

definition cube_mesh :: "real \<Rightarrow> Mesh" where
  "cube_mesh side =
    (let s = side / 2 in
       quad (s, - s, - s) (s, s, - s) (s, s, s) (s, - s, s)
     @ quad (- s, - s, - s) (- s, - s, s) (- s, s, s) (- s, s, - s)
     @ quad (- s, s, - s) (- s, s, s) (s, s, s) (s, s, - s)
     @ quad (- s, - s, - s) (s, - s, - s) (s, - s, s) (- s, - s, s)
     @ quad (- s, - s, s) (s, - s, s) (s, s, s) (- s, s, s)
     @ quad (- s, - s, - s) (- s, s, - s) (s, s, - s) (s, - s, - s))"

text \<open>
  Modelled from the spec: \<open>generate(kind, params)\<close> of section 4.1. The
  specification gives vertex data for the cube only; the tessellation of every other kind
  is the parameter \<open>tessellate\<close>.
\<close>

definition generate ::
  "(PrimitiveKind \<Rightarrow> real list \<Rightarrow> GeometryError + Mesh)
    \<Rightarrow> PrimitiveKind \<Rightarrow> real list \<Rightarrow> GeometryError + Mesh" where
  "generate tessellate kind params =
    (case kind of
       Cube \<Rightarrow>
         (case params of
            [side] \<Rightarrow> if side < 0 then Inl InvalidParameter else Inr (cube_mesh side)
          | _ \<Rightarrow> Inl InvalidParameter)
     | _ \<Rightarrow> tessellate kind params)"

subsection \<open>The shape tree\<close>

text \<open>
  Modelled from the spec: the ShapeNode of section 3 and its Boolean operators; the
  kernel's own shape type is in the missing \<open>functions\<close> file.
\<close>

datatype BooleanOp = Union | Intersect | Subtract

datatype ShapeNode =
    Primitive PrimitiveKind "real list"
  | Transformed ShapeNode Matrix4
  | Boolean BooleanOp ShapeNode ShapeNode
  | Group "ShapeNode list"

text \<open>
  Modelled from the spec: \<open>materialize(node)\<close> of section 4.4, depth first. The
  Boolean engine of section 4.3 is the parameter \<open>combine\<close>, the generator the
  parameter \<open>gen\<close>. A group unions its children from left to right; the empty
  group has the empty mesh. The cache of meshes cannot be observed and is left out.
\<close>

fun sequence :: "(GeometryError + 'a) list \<Rightarrow> GeometryError + 'a list" where
  "sequence [] = Inr []"
| "sequence (r # rs) =
     (case r of Inl e \<Rightarrow> Inl e
      | Inr x \<Rightarrow> (case sequence rs of Inl e \<Rightarrow> Inl e | Inr xs \<Rightarrow> Inr (x # xs)))"

fun union_onto ::
  "(BooleanOp \<Rightarrow> Mesh \<Rightarrow> Mesh \<Rightarrow> GeometryError + Mesh) \<Rightarrow> Mesh \<Rightarrow> Mesh list
    \<Rightarrow> GeometryError + Mesh" where
  "union_onto combine acc [] = Inr acc"
| "union_onto combine acc (m # ms) =
     (case combine Union acc m of Inl e \<Rightarrow> Inl e | Inr acc' \<Rightarrow> union_onto combine acc' ms)"

definition union_all ::
  "(BooleanOp \<Rightarrow> Mesh \<Rightarrow> Mesh \<Rightarrow> GeometryError + Mesh) \<Rightarrow> (GeometryError + Mesh) list
    \<Rightarrow> GeometryError + Mesh" where
  "union_all combine rs =
    (case sequence rs of
       Inl e \<Rightarrow> Inl e
     | Inr [] \<Rightarrow> Inr []
     | Inr (m # ms) \<Rightarrow> union_onto combine m ms)"

fun materialize ::
  "(PrimitiveKind \<Rightarrow> real list \<Rightarrow> GeometryError + Mesh)
    \<Rightarrow> (BooleanOp \<Rightarrow> Mesh \<Rightarrow> Mesh \<Rightarrow> GeometryError + Mesh)
    \<Rightarrow> ShapeNode \<Rightarrow> GeometryError + Mesh" where
  "materialize gen combine (Primitive kind params) = gen kind params"
| "materialize gen combine (Transformed child m) =
     (case materialize gen combine child of
        Inl e \<Rightarrow> Inl e
      | Inr mesh \<Rightarrow> Inr (map (transform_triangle m) mesh))"
| "materialize gen combine (Boolean op l r) =
     (case materialize gen combine l of
        Inl e \<Rightarrow> Inl e
      | Inr a \<Rightarrow>
          (case materialize gen combine r of
             Inl e \<Rightarrow> Inl e
           | Inr b \<Rightarrow> combine op a b))"
| "materialize gen combine (Group cs) = union_all combine (map (materialize gen combine) cs)"

text \<open>
  Modelled from the spec: the transform composer of section 4.2 and the node each
  combinator of section 6 builds from its operands' nodes. How \<open>rotate\<close> turns an
  axis and an angle into a matrix is the parameter \<open>rotation\<close>. A union of more
  than two shapes nests to the left.
\<close>

definition translate_node :: "Vector3 \<Rightarrow> ShapeNode \<Rightarrow> ShapeNode" where
  "translate_node v n = Transformed n (translation v)"

definition rotate_node ::
  "(Vector3 \<Rightarrow> real \<Rightarrow> Matrix4) \<Rightarrow> Vector3 \<Rightarrow> real \<Rightarrow> ShapeNode \<Rightarrow> ShapeNode" where
  "rotate_node rotation axis theta n = Transformed n (rotation axis theta)"

definition scale_node :: "Vector3 \<Rightarrow> ShapeNode \<Rightarrow> ShapeNode" where
  "scale_node v n = Transformed n (scaling v)"

definition union_node :: "ShapeNode \<Rightarrow> ShapeNode \<Rightarrow> ShapeNode list \<Rightarrow> ShapeNode" where
  "union_node a b cs = foldl (Boolean Union) (Boolean Union a b) cs"

subsection \<open>Handles and the node store\<close>

text \<open>
  Modelled from the spec: the ShapeHandle of section 3 refers to a ShapeNode, and every
  node owns its children; the kernel's own handles are in the missing \<open>functions\<close>
  file. The nodes live in a store of cells; a handle is the index of a cell, and a cell
  names its children by their indices. The display colour of a handle is left out.
\<close>

datatype cell =
    PrimitiveCell PrimitiveKind "real list"
  | TransformedCell nat Matrix4
  | BooleanCell BooleanOp nat nat
  | GroupCell "nat list"

type_synonym arena = "cell list"
type_synonym ShapeHandle = nat

fun children :: "cell \<Rightarrow> nat list" where
  "children (PrimitiveCell kind params) = []"
| "children (TransformedCell c m) = [c]"
| "children (BooleanCell op l r) = [l, r]"
| "children (GroupCell cs) = cs"

definition lookup :: "'a option list \<Rightarrow> nat \<Rightarrow> 'a option" where
  "lookup ts i = (if i < length ts then ts ! i else None)"

fun those_list :: "'a option list \<Rightarrow> 'a list option" where
  "those_list [] = Some []"
| "those_list (x # xs) =
     (case x of None \<Rightarrow> None
      | Some y \<Rightarrow> (case those_list xs of None \<Rightarrow> None | Some ys \<Rightarrow> Some (y # ys)))"

text \<open>
  The node a cell stands for, given the nodes of the cells before it. A cell whose child
  is not an earlier cell stands for no node.
\<close>

fun build :: "ShapeNode option list \<Rightarrow> cell \<Rightarrow> ShapeNode option" where
  "build ts (PrimitiveCell kind params) = Some (Primitive kind params)"
| "build ts (TransformedCell c m) =
     (case lookup ts c of None \<Rightarrow> None | Some t \<Rightarrow> Some (Transformed t m))"
| "build ts (BooleanCell op l r) =
     (case lookup ts l of None \<Rightarrow> None
      | Some a \<Rightarrow> (case lookup ts r of None \<Rightarrow> None | Some b \<Rightarrow> Some (Boolean op a b)))"
| "build ts (GroupCell cs) =
     (case those_list (map (lookup ts) cs) of None \<Rightarrow> None | Some xs \<Rightarrow> Some (Group xs))"

definition nodes_of :: "arena \<Rightarrow> ShapeNode option list" where
  "nodes_of ar = foldl (\<lambda>ts c. ts @ [build ts c]) [] ar"

definition node_of :: "arena \<Rightarrow> ShapeHandle \<Rightarrow> ShapeNode option" where
  "node_of ar h = lookup (nodes_of ar) h"

definition is_shape :: "arena \<Rightarrow> ShapeHandle \<Rightarrow> bool" where
  "is_shape ar h = (node_of ar h \<noteq> None)"

text \<open>The cells a handle reaches through children.\<close>

inductive_set reach :: "arena \<Rightarrow> ShapeHandle \<Rightarrow> nat set"
  for ar :: arena and h :: ShapeHandle where
  root: "h \<in> reach ar h"
| child: "a \<in> reach ar h \<Longrightarrow> a < length ar \<Longrightarrow> c \<in> set (children (ar ! a))
    \<Longrightarrow> c \<in> reach ar h"

text \<open>
  Modelled from the spec: a combinator call of the missing \<open>functions\<close> file
  deep-copies its operands into the new node (section 3). \<open>alloc\<close> writes a node
  and everything below it into new cells at the end of the store and returns the handle of
  the new node.
\<close>

fun alloc :: "ShapeNode \<Rightarrow> arena \<Rightarrow> ShapeHandle \<times> arena"
  and alloc_list :: "ShapeNode list \<Rightarrow> arena \<Rightarrow> ShapeHandle list \<times> arena" where
  "alloc (Primitive kind params) ar = (length ar, ar @ [PrimitiveCell kind params])"
| "alloc (Transformed t m) ar =
     (case alloc t ar of (c, ar1) \<Rightarrow> (length ar1, ar1 @ [TransformedCell c m]))"
| "alloc (Boolean op l r) ar =
     (case alloc l ar of (a, ar1) \<Rightarrow>
        (case alloc r ar1 of (b, ar2) \<Rightarrow> (length ar2, ar2 @ [BooleanCell op a b])))"
| "alloc (Group ts) ar =
     (case alloc_list ts ar of (cs, ar1) \<Rightarrow> (length ar1, ar1 @ [GroupCell cs]))"
| "alloc_list [] ar = ([], ar)"
| "alloc_list (t # ts) ar =
     (case alloc t ar of (c, ar1) \<Rightarrow>
        (case alloc_list ts ar1 of (cs, ar2) \<Rightarrow> (c # cs, ar2)))"

text \<open>
  \<open>fresh_part ar ar'\<close>: the store \<open>ar'\<close> is \<open>ar\<close> with cells added at
  the end, and the children of every added cell are added cells before it.
\<close>

definition fresh_part :: "arena \<Rightarrow> arena \<Rightarrow> bool" where
  "fresh_part ar ar' =
    (\<exists>new. ar' = ar @ new \<and>
       (\<forall>i. length ar \<le> i \<and> i < length ar' \<longrightarrow>
          (\<forall>c \<in> set (children (ar' ! i)). length ar \<le> c \<and> c < i)))"

text \<open>
  The children named by the cells added to a store, in order. When no index occurs twice
  in this list, no cell is the child of two added cells or twice the child of one.
\<close>

definition new_children :: "arena \<Rightarrow> arena \<Rightarrow> nat list" where
  "new_children ar ar' = concat (map children (drop (length ar) ar'))"

subsection \<open>The interface of section 6\<close>

text \<open>
  Modelled from the spec: the cube constructor and the combinators of section 6, all
  exported from the missing \<open>functions\<close> file. The constructor refuses a negative
  side. A combinator handed a value that is no valid handle fails with
  \<open>TypeMismatch\<close>; otherwise it copies its operands into a new node.
\<close>

definition cube :: "arena \<Rightarrow> real \<Rightarrow> GeometryError + ShapeHandle \<times> arena" where
  "cube ar side =
    (if side < 0 then Inl InvalidParameter else Inr (alloc (Primitive Cube [side]) ar))"

definition translate :: "arena \<Rightarrow> ShapeHandle \<Rightarrow> Vector3 \<Rightarrow> GeometryError + ShapeHandle \<times> arena" where
  "translate ar h v =
    (case node_of ar h of
       None \<Rightarrow> Inl TypeMismatch
     | Some n \<Rightarrow> Inr (alloc (translate_node v n) ar))"

definition rotate_shape ::
  "(Vector3 \<Rightarrow> real \<Rightarrow> Matrix4) \<Rightarrow> arena \<Rightarrow> ShapeHandle \<Rightarrow> Vector3 \<Rightarrow> real
    \<Rightarrow> GeometryError + ShapeHandle \<times> arena" where
  "rotate_shape rotation ar h axis theta =
    (case node_of ar h of
       None \<Rightarrow> Inl TypeMismatch
     | Some n \<Rightarrow> Inr (alloc (rotate_node rotation axis theta n) ar))"

definition scale :: "arena \<Rightarrow> ShapeHandle \<Rightarrow> Vector3 \<Rightarrow> GeometryError + ShapeHandle \<times> arena" where
  "scale ar h v =
    (case node_of ar h of
       None \<Rightarrow> Inl TypeMismatch
     | Some n \<Rightarrow> Inr (alloc (scale_node v n) ar))"

definition union_shapes ::
  "arena \<Rightarrow> ShapeHandle \<Rightarrow> ShapeHandle \<Rightarrow> ShapeHandle list
    \<Rightarrow> GeometryError + ShapeHandle \<times> arena" where
  "union_shapes ar h1 h2 hs =
    (case those_list (map (node_of ar) (h1 # h2 # hs)) of
       Some (a # b # cs) \<Rightarrow> Inr (alloc (union_node a b cs) ar)
     | _ \<Rightarrow> Inl TypeMismatch)"

definition intersect ::
  "arena \<Rightarrow> ShapeHandle \<Rightarrow> ShapeHandle \<Rightarrow> GeometryError + ShapeHandle \<times> arena" where
  "intersect ar h1 h2 =
    (case those_list (map (node_of ar) [h1, h2]) of
       Some [a, b] \<Rightarrow> Inr (alloc (Boolean Intersect a b) ar)
     | _ \<Rightarrow> Inl TypeMismatch)"

definition subtract ::
  "arena \<Rightarrow> ShapeHandle \<Rightarrow> ShapeHandle \<Rightarrow> GeometryError + ShapeHandle \<times> arena" where
  "subtract ar h1 h2 =
    (case those_list (map (node_of ar) [h1, h2]) of
       Some [a, b] \<Rightarrow> Inr (alloc (Boolean Subtract a b) ar)
     | _ \<Rightarrow> Inl TypeMismatch)"

definition group_shapes :: "arena \<Rightarrow> ShapeHandle list \<Rightarrow> GeometryError + ShapeHandle \<times> arena" where
  "group_shapes ar hs =
    (case those_list (map (node_of ar) hs) of
       Some ns \<Rightarrow> Inr (alloc (Group ns) ar)
     | None \<Rightarrow> Inl TypeMismatch)"

text \<open>A call of one of the seven combinators, its operands, and the node it builds.\<close>

datatype combinator =
    Translate ShapeHandle Vector3
  | Rotate ShapeHandle Vector3 real
  | Scale ShapeHandle Vector3
  | UnionOf ShapeHandle ShapeHandle "ShapeHandle list"
  | IntersectOf ShapeHandle ShapeHandle
  | SubtractOf ShapeHandle ShapeHandle
  | GroupOf "ShapeHandle list"

fun apply_combinator ::
  "(Vector3 \<Rightarrow> real \<Rightarrow> Matrix4) \<Rightarrow> arena \<Rightarrow> combinator
    \<Rightarrow> GeometryError + ShapeHandle \<times> arena" where
  "apply_combinator rotation ar (Translate h v) = translate ar h v"
| "apply_combinator rotation ar (Rotate h axis theta) = rotate_shape rotation ar h axis theta"
| "apply_combinator rotation ar (Scale h v) = scale ar h v"
| "apply_combinator rotation ar (UnionOf h1 h2 hs) = union_shapes ar h1 h2 hs"
| "apply_combinator rotation ar (IntersectOf h1 h2) = intersect ar h1 h2"
| "apply_combinator rotation ar (SubtractOf h1 h2) = subtract ar h1 h2"
| "apply_combinator rotation ar (GroupOf hs) = group_shapes ar hs"

fun operands :: "combinator \<Rightarrow> ShapeHandle list" where
  "operands (Translate h v) = [h]"
| "operands (Rotate h axis theta) = [h]"
| "operands (Scale h v) = [h]"
| "operands (UnionOf h1 h2 hs) = h1 # h2 # hs"
| "operands (IntersectOf h1 h2) = [h1, h2]"
| "operands (SubtractOf h1 h2) = [h1, h2]"
| "operands (GroupOf hs) = hs"

fun result_node ::
  "(Vector3 \<Rightarrow> real \<Rightarrow> Matrix4) \<Rightarrow> combinator \<Rightarrow> ShapeNode list \<Rightarrow> ShapeNode option" where
  "result_node rotation (Translate h v) [n] = Some (translate_node v n)"
| "result_node rotation (Rotate h axis theta) [n] = Some (rotate_node rotation axis theta n)"
| "result_node rotation (Scale h v) [n] = Some (scale_node v n)"
| "result_node rotation (UnionOf h1 h2 hs) (a # b # cs) = Some (union_node a b cs)"
| "result_node rotation (IntersectOf h1 h2) [a, b] = Some (Boolean Intersect a b)"
| "result_node rotation (SubtractOf h1 h2) [a, b] = Some (Boolean Subtract a b)"
| "result_node rotation (GroupOf hs) ns = Some (Group ns)"
| "result_node rotation call ns = None"

text \<open>
  Modelled from the spec: the queries of section 6 (exported from the missing
  \<open>functions\<close> file) over the metrics of section 4.5.
\<close>

definition shape_mesh ::
  "(PrimitiveKind \<Rightarrow> real list \<Rightarrow> GeometryError + Mesh)
    \<Rightarrow> (BooleanOp \<Rightarrow> Mesh \<Rightarrow> Mesh \<Rightarrow> GeometryError + Mesh)
    \<Rightarrow> arena \<Rightarrow> ShapeHandle \<Rightarrow> GeometryError + Mesh" where
  "shape_mesh gen combine ar h =
    (case node_of ar h of
       None \<Rightarrow> Inl TypeMismatch
     | Some n \<Rightarrow> materialize gen combine n)"

definition volume ::
  "(PrimitiveKind \<Rightarrow> real list \<Rightarrow> GeometryError + Mesh)
    \<Rightarrow> (BooleanOp \<Rightarrow> Mesh \<Rightarrow> Mesh \<Rightarrow> GeometryError + Mesh)
    \<Rightarrow> arena \<Rightarrow> ShapeHandle \<Rightarrow> GeometryError + real" where
  "volume gen combine ar h =
    (case shape_mesh gen combine ar h of Inl e \<Rightarrow> Inl e | Inr m \<Rightarrow> Inr (mesh_volume m))"

definition area ::
  "(PrimitiveKind \<Rightarrow> real list \<Rightarrow> GeometryError + Mesh)
    \<Rightarrow> (BooleanOp \<Rightarrow> Mesh \<Rightarrow> Mesh \<Rightarrow> GeometryError + Mesh)
    \<Rightarrow> arena \<Rightarrow> ShapeHandle \<Rightarrow> GeometryError + real" where
  "area gen combine ar h =
    (case shape_mesh gen combine ar h of Inl e \<Rightarrow> Inl e | Inr m \<Rightarrow> Inr (mesh_area m))"

definition shape_center ::
  "real \<Rightarrow> (PrimitiveKind \<Rightarrow> real list \<Rightarrow> GeometryError + Mesh)
    \<Rightarrow> (BooleanOp \<Rightarrow> Mesh \<Rightarrow> Mesh \<Rightarrow> GeometryError + Mesh)
    \<Rightarrow> arena \<Rightarrow> ShapeHandle \<Rightarrow> GeometryError + Vector3" where
  "shape_center eps gen combine ar h =
    (case shape_mesh gen combine ar h of Inl e \<Rightarrow> Inl e | Inr m \<Rightarrow> mesh_centroid eps m)"

text \<open>
  Modelled from the spec: \<open>shape_set_center\<close> of the missing \<open>functions\<close>
  file is the \<open>recenter\<close> of section 4.5. It computes the current centroid and wraps
  the node in a translation that moves the centroid to the target.
\<close>

definition shape_set_center ::
  "real \<Rightarrow> (PrimitiveKind \<Rightarrow> real list \<Rightarrow> GeometryError + Mesh)
    \<Rightarrow> (BooleanOp \<Rightarrow> Mesh \<Rightarrow> Mesh \<Rightarrow> GeometryError + Mesh)
    \<Rightarrow> arena \<Rightarrow> ShapeHandle \<Rightarrow> Vector3 \<Rightarrow> GeometryError + ShapeHandle \<times> arena" where
  "shape_set_center eps gen combine ar h target =
    (case node_of ar h of
       None \<Rightarrow> Inl TypeMismatch
     | Some n \<Rightarrow>
         (case shape_center eps gen combine ar h of
            Inl e \<Rightarrow> Inl e
          | Inr c \<Rightarrow> Inr (alloc (translate_node (vsub target c) n) ar)))"

text \<open>
  For the examples: a generator with cubes only, a Boolean engine that finds every result
  non-manifold (the examples with cubes alone never ask it), a store holding a unit cube,
  one holding a unit cube scaled flat along \<open>x\<close>, one holding the union of two
  unit cubes in the same place, and that one after the union was scaled flat.
\<close>

definition cubes_only :: "PrimitiveKind \<Rightarrow> real list \<Rightarrow> GeometryError + Mesh" where
  "cubes_only = generate (\<lambda>kind params. Inl InvalidParameter)"

definition no_booleans :: "BooleanOp \<Rightarrow> Mesh \<Rightarrow> Mesh \<Rightarrow> GeometryError + Mesh" where
  "no_booleans op a b = Inl NonManifoldResult"

definition unit_cube_arena :: arena where
  "unit_cube_arena = [PrimitiveCell Cube [1]]"

definition flat_cube_arena :: arena where
  "flat_cube_arena =
    [PrimitiveCell Cube [1], PrimitiveCell Cube [1], TransformedCell 1 (scaling (0, 1, 1))]"




section \<open>Exported names\<close>

text \<open>
  C1. Every primitive constructor (cube, sphere, cylinder, cone, prism, pyramid, torus,
  star, geodesic_sphere, rounded_cube, rounded_cylinder), every combinator (translate,
  rotate, scale, union, intersect, subtract, group) and every query (volume, area,
  shape_center, shape_set_center, is_shape) is a name in the bundle's export list.
\<close>

theorem exports_cover_interface:
  "exported ''cube'' \<and> exported ''sphere'' \<and> exported ''cylinder'' \<and> exported ''cone''
   \<and> exported ''prism'' \<and> exported ''pyramid'' \<and> exported ''torus'' \<and> exported ''star''
   \<and> exported ''geodesic_sphere'' \<and> exported ''rounded_cube''
   \<and> exported ''rounded_cylinder''
   \<and> exported ''translate'' \<and> exported ''rotate'' \<and> exported ''scale''
   \<and> exported ''union'' \<and> exported ''intersect'' \<and> exported ''subtract''
   \<and> exported ''group''
   \<and> exported ''volume'' \<and> exported ''area'' \<and> exported ''shape_center''
   \<and> exported ''shape_set_center'' \<and> exported ''is_shape''"
  by (simp add: exported_def exports_def)


section \<open>The animation callback\<close>

lemmas handler_defs =
  canvasRef_def componentDidMount_def animationCallback_def onPlayButtonClick_def
  onResetButtonClick_def onTimeSliderChange_def onTimeSliderRelease_def
  onAngleSliderChange_def onSwitchChange_def drawFrame_def reqFrame_def

lemma playing_example_eq:
  "playing_example =
    \<lparr> animTimestamp = 0, isPlaying = True, wasPlaying = False, isAutoLooping = True,
      displayAngle = 0, canvas = True, frameDuration = Num 40, animationDuration = 2000,
      callbackTimestamp = None, animation = \<lparr>duration = 2, fps = 25, angle = 0\<rparr>,
      trace = [DrawFrame 0, ReqFrame] \<rparr>"
  by (simp add: playing_example_def run_def constructor_def handler_defs js_div_def
      Math_round_def)

lemma ended_example_eq:
  "ended_example =
    \<lparr> animTimestamp = 2000, isPlaying = True, wasPlaying = False, isAutoLooping = True,
      displayAngle = 0, canvas = True, frameDuration = Num 40, animationDuration = 2000,
      callbackTimestamp = Some 1000, animation = \<lparr>duration = 2, fps = 25, angle = 0\<rparr>,
      trace = [DrawFrame 0, DrawFrame 2, ReqFrame, DrawFrame 2, ReqFrame] \<rparr>"
  by (simp add: ended_example_def run_def constructor_def handler_defs js_div_def
      Math_round_def)

lemma js_geq_iff: "js_geq x d \<longleftrightarrow> \<not> js_less x d"
  by (cases d) auto

lemma run_Nil: "run [] s = s"
  by (simp add: run_def)

lemma run_Cons: "run (e # es) s = run es (handle e s)"
  by (simp add: run_def)

text \<open>No handler writes the two durations: they are the constructor's.\<close>

lemma handle_keeps_durations:
  "frameDuration (handle e s) = frameDuration s
   \<and> animationDuration (handle e s) = animationDuration s"
  by (cases e) (simp_all add: handler_defs Let_def)

lemma run_keeps_durations:
  "frameDuration (run evs s) = frameDuration s
   \<and> animationDuration (run evs s) = animationDuration s"
  by (induction evs arbitrary: s) (simp_all add: run_Nil run_Cons handle_keeps_durations)

text \<open>
  C8. When a frame is due and \<open>animTimestamp\<close> has reached \<open>animationDuration\<close>,
  the callback takes one of two transitions, chosen by \<open>isAutoLooping\<close>. With auto
  loop it sets \<open>animTimestamp\<close> to 0, stays playing and requests the next animation
  frame. Without it sets \<open>isPlaying\<close> to false and \<open>callbackTimestamp\<close> to null
  and requests nothing. Neither transition draws a frame.
\<close>

theorem animationCallback_end_of_animation:
  assumes "frame_due t s" and "animationDuration s \<le> animTimestamp s"
  shows "(if isAutoLooping s
          then animTimestamp (animationCallback t s) = 0
             \<and> isPlaying (animationCallback t s)
             \<and> callbackTimestamp (animationCallback t s) = Some t
             \<and> new_effects s (animationCallback t s) = [ReqFrame]
          else \<not> isPlaying (animationCallback t s)
             \<and> callbackTimestamp (animationCallback t s) = None
             \<and> animTimestamp (animationCallback t s) = animTimestamp s
             \<and> new_effects s (animationCallback t s) = [])
       \<and> \<not> draws s (animationCallback t s)"
  using assms
  by (simp add: frame_due_def animationCallback_def js_geq_iff Let_def reqFrame_def
      new_effects_def draws_def)

theorem animationCallback_end_of_animation_witness:
  "frame_due 1040 ended_example
   \<and> animationDuration ended_example \<le> animTimestamp ended_example
   \<and> isAutoLooping ended_example
   \<and> animTimestamp (animationCallback 1040 ended_example) = 0
   \<and> isPlaying (animationCallback 1040 ended_example)
   \<and> frame_due 1040 (onSwitchChange ended_example)
   \<and> animationDuration (onSwitchChange ended_example)
       \<le> animTimestamp (onSwitchChange ended_example)
   \<and> \<not> isAutoLooping (onSwitchChange ended_example)
   \<and> \<not> isPlaying (animationCallback 1040 (onSwitchChange ended_example))
   \<and> callbackTimestamp (animationCallback 1040 (onSwitchChange ended_example)) = None"
proof -
  have a: "frame_due 1040 ended_example"
    and b: "animationDuration ended_example \<le> animTimestamp ended_example"
    and c: "isAutoLooping ended_example"
    by (simp_all add: ended_example_eq frame_due_def)
  have a': "frame_due 1040 (onSwitchChange ended_example)"
    and b': "animationDuration (onSwitchChange ended_example)
              \<le> animTimestamp (onSwitchChange ended_example)"
    and c': "\<not> isAutoLooping (onSwitchChange ended_example)"
    by (simp_all add: ended_example_eq frame_due_def onSwitchChange_def)
  show ?thesis
    using animationCallback_end_of_animation [OF a b]
      animationCallback_end_of_animation [OF a' b'] a b c a' b' c'
    by simp
qed

text \<open>
  C9, as stated, fails at the first callback after the play button: with
  \<open>callbackTimestamp\<close> still null the callback draws the current frame at once, here
  5 ms after the time origin with a frame duration of 40 ms, and leaves
  \<open>animTimestamp\<close> where it was.
\<close>

theorem first_callback_draws_unthrottled:
  "draws playing_example (animationCallback 5 playing_example)
   \<and> \<not> js_geq (5 - to_number (callbackTimestamp playing_example))
         (frameDuration playing_example)
   \<and> animTimestamp playing_example < animationDuration playing_example
   \<and> animTimestamp (animationCallback 5 playing_example)
       \<noteq> animTimestamp playing_example + (5 - to_number (callbackTimestamp playing_example))"
  by (simp add: playing_example_eq handler_defs draws_def new_effects_def)

text \<open>
  C9, amended. In every state the component reaches from its constructor,
  \<open>frameDuration\<close> is \<open>1000 / fps\<close> and \<open>animationDuration\<close> is
  \<open>round (duration * 1000)\<close>. A callback at time \<open>t\<close> that draws a frame either
  finds no earlier \<open>callbackTimestamp\<close> (null or 0) and leaves \<open>animTimestamp\<close>
  unchanged, or finds one with \<open>t - callbackTimestamp >= frameDuration\<close> in the middle
  of the animation, and then advances \<open>animTimestamp\<close> by exactly
  \<open>t - callbackTimestamp\<close>.
\<close>

theorem animationCallback_throttle:
  assumes "s = run evs (constructor props)"
      and "draws s (animationCallback t s)"
  shows "frameDuration s = js_div 1000 (fps props)
       \<and> animationDuration s = Math_round (duration props * 1000)
       \<and> (if js_not (callbackTimestamp s)
          then animTimestamp (animationCallback t s) = animTimestamp s
          else js_geq (t - to_number (callbackTimestamp s)) (frameDuration s)
             \<and> animTimestamp s < animationDuration s
             \<and> animTimestamp (animationCallback t s)
                 = animTimestamp s + (t - to_number (callbackTimestamp s)))"
proof -
  have "frameDuration s = js_div 1000 (fps props)"
    and "animationDuration s = Math_round (duration props * 1000)"
    using assms(1) by (simp_all add: run_keeps_durations constructor_def)
  moreover have "animTimestamp (animationCallback t s) = animTimestamp s"
    if "js_not (callbackTimestamp s)"
    using that by (simp add: animationCallback_def drawFrame_def reqFrame_def)
  moreover have "js_geq (t - to_number (callbackTimestamp s)) (frameDuration s)
             \<and> animTimestamp s < animationDuration s
             \<and> animTimestamp (animationCallback t s)
                 = animTimestamp s + (t - to_number (callbackTimestamp s))"
    if "\<not> js_not (callbackTimestamp s)"
    using that assms(2)
    by (simp add: animationCallback_def draws_def new_effects_def js_geq_iff Let_def
        drawFrame_def reqFrame_def split: if_splits)
  ultimately show ?thesis by simp
qed

theorem animationCallback_throttle_witness:
  "draws (run [AnimationFrame 1000] playing_example)
         (animationCallback 1050 (run [AnimationFrame 1000] playing_example))
   \<and> \<not> js_not (callbackTimestamp (run [AnimationFrame 1000] playing_example))
   \<and> js_geq
        (1050 - to_number (callbackTimestamp (run [AnimationFrame 1000] playing_example)))
        (Num 40)
   \<and> animTimestamp (animationCallback 1050 (run [AnimationFrame 1000] playing_example)) = 50"
proof -
  let ?s = "run [AnimationFrame 1000] playing_example"
  have s: "?s = run [Mount, PlayButtonClick, AnimationFrame 1000]
                  (constructor \<lparr>duration = 2, fps = 25, angle = 0\<rparr>)"
    by (simp add: playing_example_def run_def)
  have d: "draws ?s (animationCallback 1050 ?s)"
    by (simp add: playing_example_eq run_def handler_defs draws_def new_effects_def)
  show ?thesis
    using animationCallback_throttle [OF s d] d
    by (simp add: playing_example_eq run_def handler_defs js_div_def)
qed

text \<open>
  C10. \<open>onTimeSliderChange\<close> saves \<open>isPlaying\<close> in \<open>wasPlaying\<close>, pauses and
  sets \<open>animTimestamp\<close> to the slider value; \<open>onTimeSliderRelease\<close> sets
  \<open>isPlaying\<close> to \<open>wasPlaying\<close>. So one change followed by the release leaves
  \<open>isPlaying\<close> as it was before, from every state. An animation callback that
  arrives between the two finds the animation paused and changes nothing.
\<close>

theorem time_slider_round_trip:
  "wasPlaying (onTimeSliderChange v s) = isPlaying s
   \<and> \<not> isPlaying (onTimeSliderChange v s)
   \<and> animTimestamp (onTimeSliderChange v s) = v
   \<and> isPlaying (onTimeSliderRelease s) = wasPlaying s
   \<and> isPlaying (onTimeSliderRelease (onTimeSliderChange v s)) = isPlaying s
   \<and> animationCallback t (onTimeSliderChange v s) = onTimeSliderChange v s"
  by (simp add: onTimeSliderChange_def onTimeSliderRelease_def animationCallback_def
      drawFrame_def reqFrame_def Let_def)

theorem time_slider_round_trip_witness:
  "isPlaying playing_example
   \<and> \<not> isPlaying (onTimeSliderChange 500 playing_example)
   \<and> animTimestamp (onTimeSliderChange 500 playing_example) = 500
   \<and> isPlaying (onTimeSliderRelease (onTimeSliderChange 500 playing_example))"
  using time_slider_round_trip [of 500 playing_example 1000]
  by (simp add: playing_example_eq)


section \<open>The unit cube\<close>

lemma cube_mesh_length: "length (cube_mesh side) = 12"
  by (simp add: cube_mesh_def quad_def Let_def)

lemma unit_cube_volume: "mesh_volume (cube_mesh 1) = 1"
  by (simp add: cube_mesh_def quad_def Let_def mesh_volume_def)

lemma unit_cube_area: "mesh_area (cube_mesh 1) = 6"
  by (simp add: cube_mesh_def quad_def Let_def mesh_area_def vnorm_def)

lemma unit_cube_watertight: "watertight (cube_mesh 1)"
  by (simp add: cube_mesh_def quad_def Let_def watertight_def mesh_edges_def)


section \<open>Moving a watertight mesh\<close>

text \<open>
  Moving a triangle by \<open>d\<close> adds to its signed tetrahedron, and to its first moment,
  terms that belong to its three directed edges and change sign when the edge is reversed.
  In a watertight mesh every edge is met by its reverse, so the terms cancel: the volume
  stays, and the centroid moves by \<open>d\<close>.
\<close>

lemma count_list_map_swap: "count_list (map prod.swap es) e = count_list es (prod.swap e)"
  by (induction es) auto

lemma watertight_balanced:
  assumes "watertight m"
  shows "edge_balanced (mesh_edges m)"
proof -
  let ?es = "mesh_edges m"
  have w: "\<And>e. e \<in> set ?es
             \<Longrightarrow> count_list ?es e = 1 \<and> count_list ?es (prod.swap e) = 1"
    using assms by (simp add: watertight_def list_all_iff)
  have "count_list ?es e = count_list ?es (prod.swap e)" for e
  proof (cases "e \<in> set ?es")
    case True
    then show ?thesis using w by simp
  next
    case False
    have "prod.swap e \<notin> set ?es"
    proof
      assume "prod.swap e \<in> set ?es"
      then have "count_list ?es (prod.swap (prod.swap e)) = 1" using w by blast
      then have "count_list ?es e = 1" by simp
      with False show False by (simp add: count_list_0_iff)
    qed
    with False show ?thesis by (simp add: count_list_0_iff)
  qed
  then have "count (mset ?es) e = count (mset (map prod.swap ?es)) e" for e
    by (simp add: count_mset count_list_map_swap del: mset_map)
  then show ?thesis unfolding edge_balanced_def by (rule multiset_eqI)
qed

lemma balanced_sum_zero:
  fixes g :: "Vector3 \<times> Vector3 \<Rightarrow> real"
  assumes "edge_balanced es" and "\<And>e. g (prod.swap e) = - g e"
  shows "sum_list (map g es) = 0"
proof -
  have "sum_list (map g es) = sum_mset (image_mset g (mset es))"
    by (simp add: sum_mset_sum_list flip: mset_map)
  also have "\<dots> = sum_mset (image_mset g (mset (map prod.swap es)))"
    using assms(1) by (simp add: edge_balanced_def)
  also have "\<dots> = sum_list (map g (map prod.swap es))"
    by (simp add: sum_mset_sum_list flip: mset_map)
  also have "\<dots> = sum_list (map (\<lambda>e. - g e) es)"
    by (simp add: comp_def assms(2))
  also have "\<dots> = - sum_list (map g es)"
    by (induction es) simp_all
  finally show ?thesis by simp
qed

lemma vsum_Nil: "vsum [] = (0, 0, 0)"
  by (simp add: vsum_def)

lemma vsum_Cons: "vsum (v # vs) = vadd v (vsum vs)"
  by (simp add: vsum_def)

lemma vsum_components:
  "vsum vs =
    (sum_list (map fst vs), sum_list (map (fst \<circ> snd) vs), sum_list (map (snd \<circ> snd) vs))"
  by (induction vs) (auto simp: vsum_Nil vsum_Cons)

lemma transform_translation: "transform_point (translation d) p = vadd p d"
  by (cases d; cases p) simp

lemma tetra_translate:
  "signed_tetrahedron (transform_triangle (translation d) t)
     = signed_tetrahedron t + sum_list (map (\<lambda>(a, b). dot d (cross a b)) (tri_edges t))"
  by (cases t; cases d) (auto simp: transform_translation algebra_simps)

lemma mesh_edges_Cons: "mesh_edges (t # m) = tri_edges t @ mesh_edges m"
  by (simp add: mesh_edges_def)

lemma volume_translate_aux:
  "sum_list (map signed_tetrahedron (map (transform_triangle (translation d)) m))
     = sum_list (map signed_tetrahedron m)
       + sum_list (map (\<lambda>(a, b). dot d (cross a b)) (mesh_edges m))"
  by (induction m)
     (simp_all add: mesh_edges_def tetra_translate
        del: signed_tetrahedron.simps transform_triangle.simps)

lemma dot_cross_swap: "dot d (cross b a) = - dot d (cross a b)"
  by (cases d; cases a; cases b) (simp add: algebra_simps)

lemma volume_translate:
  assumes "edge_balanced (mesh_edges m)"
  shows "mesh_volume (map (transform_triangle (translation d)) m) = mesh_volume m"
proof -
  have "sum_list (map (\<lambda>(a, b). dot d (cross a b)) (mesh_edges m)) = 0"
  proof (rule balanced_sum_zero [OF assms])
    fix e :: "Vector3 \<times> Vector3"
    obtain a b where e: "e = (a, b)" by (cases e)
    show "(case prod.swap e of (a, b) \<Rightarrow> dot d (cross a b))
        = - (case e of (a, b) \<Rightarrow> dot d (cross a b))"
      unfolding e using dot_cross_swap [of d a b] by simp
  qed
  then show ?thesis
    by (simp only: mesh_volume_def volume_translate_aux add_0_right)
qed

lemma moment_translate_tri:
  "first_moment (transform_triangle (translation d) t)
     = vadd (first_moment t)
         (vadd (smult (signed_tetrahedron t / 6) d) (vsum (map (edge_term d) (tri_edges t))))"
proof -
  obtain a1 a2 a3 b1 b2 b3 c1 c2 c3 where t: "t = ((a1, a2, a3), (b1, b2, b3), (c1, c2, c3))"
    by (metis prod_cases3)
  obtain d1 d2 d3 where d: "d = (d1, d2, d3)" by (metis prod_cases3)
  show ?thesis
    unfolding t d by (simp add: vsum_def) (simp add: algebra_simps add_divide_distrib)
qed

lemma vadd_assoc: "vadd (vadd a b) c = vadd a (vadd b c)"
  by (cases a; cases b; cases c) simp

lemma vadd_left_commute: "vadd a (vadd b c) = vadd b (vadd a c)"
  by (cases a; cases b; cases c) simp

lemma vadd_zero: "vadd a (0, 0, 0) = a" "vadd (0, 0, 0) a = a"
  by (cases a; simp)+

lemma smult_add_left: "smult (x + y) v = vadd (smult x v) (smult y v)"
  by (cases v) (simp add: algebra_simps)

lemma vsum_append: "vsum (xs @ ys) = vadd (vsum xs) (vsum ys)"
  by (induction xs) (simp_all add: vsum_Nil vsum_Cons vadd_zero vadd_assoc)

lemma moment_translate_sum:
  "vsum (map first_moment (map (transform_triangle (translation d)) m))
     = vadd (vsum (map first_moment m))
         (vadd (smult (sum_list (map signed_tetrahedron m) / 6) d)
               (vsum (map (edge_term d) (mesh_edges m))))"
proof (induction m)
  case Nil
  then show ?case by (cases d) (simp add: vsum_Nil mesh_edges_def)
next
  case (Cons t m)
  have "vsum (map first_moment (map (transform_triangle (translation d)) (t # m)))
      = vadd (first_moment (transform_triangle (translation d) t))
             (vsum (map first_moment (map (transform_triangle (translation d)) m)))"
    by (simp add: vsum_Cons)
  also have "\<dots> = vadd (vadd (first_moment t)
         (vadd (smult (signed_tetrahedron t / 6) d) (vsum (map (edge_term d) (tri_edges t)))))
       (vadd (vsum (map first_moment m))
         (vadd (smult (sum_list (map signed_tetrahedron m) / 6) d)
               (vsum (map (edge_term d) (mesh_edges m)))))"
    by (simp only: moment_translate_tri Cons.IH)
  also have "\<dots> = vadd (vsum (map first_moment (t # m)))
         (vadd (smult (sum_list (map signed_tetrahedron (t # m)) / 6) d)
               (vsum (map (edge_term d) (mesh_edges (t # m)))))"
    by (simp only: mesh_edges_Cons map_append vsum_append list.map vsum_Cons sum_list.Cons
          add_divide_distrib smult_add_left vadd_assoc vadd_left_commute)
  finally show ?case .
qed

lemma edge_term_swap:
  "edge_term d (prod.swap e) = smult (- 1) (edge_term d e)"
proof -
  obtain a1 a2 a3 b1 b2 b3 where e: "e = ((a1, a2, a3), (b1, b2, b3))"
    by (metis prod_cases3)
  obtain d1 d2 d3 where d: "d = (d1, d2, d3)" by (metis prod_cases3)
  show ?thesis unfolding e d by (simp add: algebra_simps add_divide_distrib)
qed

lemma edge_terms_cancel:
  assumes "edge_balanced es"
  shows "vsum (map (edge_term d) es) = (0, 0, 0)"
proof -
  have neg: "fst (smult (- 1) v) = - fst v" "fst (snd (smult (- 1) v)) = - fst (snd v)"
    "snd (snd (smult (- 1) v)) = - snd (snd v)" for v
    by (cases v; simp)+
  have "sum_list (map (\<lambda>e. fst (edge_term d e)) es) = 0"
    by (rule balanced_sum_zero [OF assms]) (simp add: edge_term_swap neg)
  moreover have "sum_list (map (\<lambda>e. fst (snd (edge_term d e))) es) = 0"
    by (rule balanced_sum_zero [OF assms]) (simp add: edge_term_swap neg)
  moreover have "sum_list (map (\<lambda>e. snd (snd (edge_term d e))) es) = 0"
    by (rule balanced_sum_zero [OF assms]) (simp add: edge_term_swap neg)
  ultimately show ?thesis
    by (simp add: vsum_components comp_def)
qed

lemma centroid_translate:
  assumes "watertight m" and "0 < eps" and "mesh_centroid eps m = Inr c"
  shows "mesh_centroid eps (map (transform_triangle (translation d)) m) = Inr (vadd c d)"
proof -
  have bal: "edge_balanced (mesh_edges m)" using assms(1) by (rule watertight_balanced)
  let ?V = "mesh_volume m"
  let ?M = "vsum (map first_moment m)"
  from assms(3) have nd: "\<not> \<bar>?V\<bar> < eps" and c: "c = smult (1 / ?V) ?M"
    by (auto simp: mesh_centroid_def split: if_splits)
  with assms(2) have V0: "?V \<noteq> 0" by auto
  have V': "mesh_volume (map (transform_triangle (translation d)) m) = ?V"
    using bal by (rule volume_translate)
  have "vsum (map first_moment (map (transform_triangle (translation d)) m))
      = vadd ?M (smult ?V d)"
    by (simp only: moment_translate_sum edge_terms_cancel [OF bal] vadd_zero)
       (simp add: mesh_volume_def)
  moreover have "smult (1 / ?V) (vadd ?M (smult ?V d)) = vadd (smult (1 / ?V) ?M) d"
    using V0 by (cases ?M; cases d) (simp add: field_simps)
  ultimately show ?thesis
    using nd by (simp only: mesh_centroid_def V' c if_False)
qed


section \<open>Copies in the node store\<close>

text \<open>
  The node of a handle depends only on the cells up to the handle, so cells added at the
  end of a store change the node of no old handle. \<open>alloc\<close> adds the cells of a
  whole tree, children before parents, and the new handle reads back as the tree.
\<close>

lemma nodes_of_snoc: "nodes_of (ar @ [c]) = nodes_of ar @ [build (nodes_of ar) c]"
  by (simp add: nodes_of_def)

lemma length_nodes_of: "length (nodes_of ar) = length ar"
  by (induction ar rule: rev_induct) (simp_all add: nodes_of_def)

lemma nodes_of_append: "\<exists>more. nodes_of (ar @ new) = nodes_of ar @ more"
proof (induction new rule: rev_induct)
  case Nil
  then show ?case by simp
next
  case (snoc x xs)
  then obtain more where m: "nodes_of (ar @ xs) = nodes_of ar @ more" by blast
  have "nodes_of (ar @ xs @ [x]) = nodes_of ar @ (more @ [build (nodes_of (ar @ xs)) x])"
    using nodes_of_snoc [of "ar @ xs" x] by (simp add: m)
  then show ?case by blast
qed

lemma node_of_append:
  assumes "h < length ar"
  shows "node_of (ar @ new) h = node_of ar h"
proof -
  obtain more where "nodes_of (ar @ new) = nodes_of ar @ more"
    using nodes_of_append by blast
  with assms show ?thesis
    by (simp add: node_of_def lookup_def length_nodes_of nth_append)
qed

lemma node_of_last:
  "node_of (ar @ [c]) (length ar) = build (nodes_of ar) c"
  by (simp add: node_of_def lookup_def nodes_of_snoc length_nodes_of nth_append)

lemma node_of_Some_less: "node_of ar h = Some t \<Longrightarrow> h < length ar"
  by (simp add: node_of_def lookup_def length_nodes_of split: if_splits)

lemma fresh_part_refl: "fresh_part ar ar"
  by (simp add: fresh_part_def)

lemma fresh_part_trans:
  assumes "fresh_part ar ar1" and "fresh_part ar1 ar2"
  shows "fresh_part ar ar2"
proof -
  obtain n1 where n1: "ar1 = ar @ n1"
    and c1: "\<And>i c. length ar \<le> i \<Longrightarrow> i < length ar1 \<Longrightarrow> c \<in> set (children (ar1 ! i)) \<Longrightarrow> length ar \<le> c \<and> c < i"
    using assms(1) unfolding fresh_part_def by blast
  obtain n2 where n2: "ar2 = ar1 @ n2"
    and c2: "\<And>i c. length ar1 \<le> i \<Longrightarrow> i < length ar2 \<Longrightarrow> c \<in> set (children (ar2 ! i)) \<Longrightarrow> length ar1 \<le> c \<and> c < i"
    using assms(2) unfolding fresh_part_def by blast
  have "length ar \<le> c \<and> c < i"
    if "length ar \<le> i" "i < length ar2" "c \<in> set (children (ar2 ! i))" for i c
  proof (cases "i < length ar1")
    case True
    then have "ar2 ! i = ar1 ! i" by (simp add: n2 nth_append)
    with that True c1 [of i c] show ?thesis by simp
  next
    case False
    then have "length ar1 \<le> c \<and> c < i" using c2 [of i c] that by simp
    then show ?thesis by (simp add: n1)
  qed
  moreover have "ar2 = ar @ (n1 @ n2)" by (simp add: n1 n2)
  ultimately show ?thesis unfolding fresh_part_def by blast
qed

lemma fresh_partD:
  assumes "fresh_part ar ar'"
  obtains new where "ar' = ar @ new"
  using assms unfolding fresh_part_def by blast

lemma fresh_part_length: "fresh_part ar ar' \<Longrightarrow> length ar \<le> length ar'"
  by (auto elim: fresh_partD)

lemma fresh_part_children:
  assumes "fresh_part ar ar'" and "length ar \<le> i" and "i < length ar'"
    and "c \<in> set (children (ar' ! i))"
  shows "length ar \<le> c \<and> c < i"
  using assms unfolding fresh_part_def by blast

lemma fresh_part_snoc:
  assumes "fresh_part ar ar1"
    and "\<And>c. c \<in> set (children x) \<Longrightarrow> length ar \<le> c \<and> c < length ar1"
  shows "fresh_part ar (ar1 @ [x])"
proof -
  obtain n1 where n1: "ar1 = ar @ n1" using assms(1) by (rule fresh_partD)
  have "length ar \<le> c \<and> c < i"
    if "length ar \<le> i \<and> i < length (ar1 @ [x])" and "c \<in> set (children ((ar1 @ [x]) ! i))"
    for i c
  proof (cases "i < length ar1")
    case True
    then have "(ar1 @ [x]) ! i = ar1 ! i" by (simp add: nth_append)
    with that True show ?thesis
      using fresh_part_children [OF assms(1), of i c] by simp
  next
    case False
    with that have i: "i = length ar1" by simp
    with that have "c \<in> set (children x)" by simp
    then show ?thesis using assms(2) [of c] i by simp
  qed
  moreover have "ar1 @ [x] = ar @ (n1 @ [x])" by (simp add: n1)
  ultimately show ?thesis unfolding fresh_part_def by blast
qed

lemma node_of_fresh:
  assumes "fresh_part ar ar'" and "h < length ar"
  shows "node_of ar' h = node_of ar h"
  using assms by (auto elim!: fresh_partD simp: node_of_append)

lemma alloc_correct:
  "alloc t ar = (h, ar') \<Longrightarrow>
     fresh_part ar ar' \<and> length ar \<le> h \<and> h < length ar' \<and> node_of ar' h = Some t"
  and alloc_list_correct:
  "alloc_list ts ar = (hs, ar') \<Longrightarrow>
     fresh_part ar ar' \<and> (\<forall>c \<in> set hs. length ar \<le> c \<and> c < length ar')
     \<and> map (node_of ar') hs = map Some ts"
proof (induction t ar and ts ar arbitrary: h ar' and hs ar' rule: alloc_alloc_list.induct)
  case (1 k ps ar)
  then have h: "h = length ar" and ar': "ar' = ar @ [PrimitiveCell k ps]" by simp_all
  have "fresh_part ar ar'"
    unfolding ar' by (rule fresh_part_snoc [OF fresh_part_refl]) simp
  moreover have "node_of ar' h = Some (Primitive k ps)"
    unfolding ar' h by (simp add: node_of_last)
  ultimately show ?case by (simp add: h ar')
next
  case (2 t m ar)
  obtain c ar1 where a: "alloc t ar = (c, ar1)" by (cases "alloc t ar")
  from "2.IH" [OF a] have f1: "fresh_part ar ar1" and c: "length ar \<le> c" "c < length ar1"
    and n: "node_of ar1 c = Some t" by simp_all
  from "2.prems" a have h: "h = length ar1" and ar': "ar' = ar1 @ [TransformedCell c m]"
    by simp_all
  have "fresh_part ar ar'"
    unfolding ar' by (rule fresh_part_snoc [OF f1]) (simp add: c)
  moreover have "node_of ar' h = Some (Transformed t m)"
    unfolding ar' h using n by (simp add: node_of_last flip: node_of_def)
  moreover have "length ar \<le> h" using fresh_part_length [OF f1] h by simp
  ultimately show ?case by (simp add: h ar')
next
  case (3 op l r ar)
  obtain a ar1 where a: "alloc l ar = (a, ar1)" by (cases "alloc l ar")
  obtain b ar2 where b: "alloc r ar1 = (b, ar2)" by (cases "alloc r ar1")
  from "3.IH"(1) [OF a] have f1: "fresh_part ar ar1" and ca: "length ar \<le> a" "a < length ar1"
    and na: "node_of ar1 a = Some l" by simp_all
  from "3.IH"(2) [OF a [symmetric] b] have f2: "fresh_part ar1 ar2"
    and cb: "length ar1 \<le> b" "b < length ar2" and nb: "node_of ar2 b = Some r" by simp_all
  from "3.prems" a b have h: "h = length ar2" and ar': "ar' = ar2 @ [BooleanCell op a b]"
    by simp_all
  have f: "fresh_part ar ar2" using f1 f2 by (rule fresh_part_trans)
  have l12: "length ar1 \<le> length ar2" using f2 by (rule fresh_part_length)
  have l01: "length ar \<le> length ar1" using f1 by (rule fresh_part_length)
  have na2: "node_of ar2 a = Some l" using node_of_fresh [OF f2 ca(2)] na by simp
  have "fresh_part ar ar'"
    unfolding ar' using ca cb l12 l01 by (intro fresh_part_snoc [OF f]) auto
  moreover have "node_of ar' h = Some (Boolean op l r)"
    unfolding ar' h using na2 nb by (simp add: node_of_last flip: node_of_def)
  moreover have "length ar \<le> h" using l01 l12 h by simp
  ultimately show ?case by (simp add: h ar')
next
  case (4 ts ar)
  obtain cs ar1 where a: "alloc_list ts ar = (cs, ar1)" by (cases "alloc_list ts ar")
  from "4.IH" [OF a] have f1: "fresh_part ar ar1"
    and cs: "\<forall>c \<in> set cs. length ar \<le> c \<and> c < length ar1"
    and n: "map (node_of ar1) cs = map Some ts" by simp_all
  from "4.prems" a have h: "h = length ar1" and ar': "ar' = ar1 @ [GroupCell cs]"
    by simp_all
  have "those_list (map Some xs) = Some xs" for xs :: "ShapeNode list"
    by (induction xs) simp_all
  then have tl: "those_list (map (node_of ar1) cs) = Some ts" by (simp only: n)
  have "fresh_part ar ar'"
    unfolding ar' using cs by (intro fresh_part_snoc [OF f1]) auto
  moreover have "node_of ar' h = Some (Group ts)"
  proof -
    have "lookup (nodes_of ar1) = node_of ar1"
      by (rule ext) (simp add: node_of_def)
    then show ?thesis
      unfolding ar' h node_of_last build.simps by (simp add: tl)
  qed
  moreover have "length ar \<le> h" using fresh_part_length [OF f1] h by simp
  ultimately show ?case by (simp add: h ar')
next
  case (5 ar)
  then show ?case by (simp add: fresh_part_refl)
next
  case (6 t ts ar)
  obtain c ar1 where a: "alloc t ar = (c, ar1)" by (cases "alloc t ar")
  obtain cs ar2 where b: "alloc_list ts ar1 = (cs, ar2)" by (cases "alloc_list ts ar1")
  from "6.IH"(1) [OF a] have f1: "fresh_part ar ar1" and c: "length ar \<le> c" "c < length ar1"
    and n: "node_of ar1 c = Some t" by simp_all
  from "6.IH"(2) [OF a [symmetric] b] have f2: "fresh_part ar1 ar2"
    and cs: "\<forall>c \<in> set cs. length ar1 \<le> c \<and> c < length ar2"
    and ns: "map (node_of ar2) cs = map Some ts" by simp_all
  from "6.prems" a b have hs: "hs = c # cs" and ar': "ar' = ar2" by simp_all
  have l12: "length ar1 \<le> length ar2" using f2 by (rule fresh_part_length)
  have l01: "length ar \<le> length ar1" using f1 by (rule fresh_part_length)
  have "node_of ar2 c = Some t" using node_of_fresh [OF f2 c(2)] n by simp
  moreover have "fresh_part ar ar2" using f1 f2 by (rule fresh_part_trans)
  moreover have "\<forall>c \<in> set hs. length ar \<le> c \<and> c < length ar2"
    using c cs l12 l01 unfolding hs by auto
  ultimately show ?case using ns by (simp add: hs ar')
qed

lemma new_children_refl: "new_children ar ar = []"
  by (simp add: new_children_def)

lemma new_children_snoc:
  assumes "length ar \<le> length ar1"
  shows "new_children ar (ar1 @ [x]) = new_children ar ar1 @ children x"
  using assms by (simp add: new_children_def)

lemma new_children_trans:
  assumes "fresh_part ar ar1" and "fresh_part ar1 ar2"
  shows "new_children ar ar2 = new_children ar ar1 @ new_children ar1 ar2"
proof -
  obtain n1 where n1: "ar1 = ar @ n1" using assms(1) by (rule fresh_partD)
  obtain n2 where n2: "ar2 = ar1 @ n2" using assms(2) by (rule fresh_partD)
  show ?thesis by (simp add: new_children_def n1 n2)
qed

lemma new_children_bounds:
  assumes "fresh_part ar ar'" and "c \<in> set (new_children ar ar')"
  shows "length ar \<le> c \<and> Suc c < length ar'"
proof -
  from assms(2) obtain x where x: "x \<in> set (drop (length ar) ar')" and c: "c \<in> set (children x)"
    by (auto simp: new_children_def)
  from x obtain j where j: "j < length (drop (length ar) ar')" and xj: "x = drop (length ar) ar' ! j"
    by (auto simp: in_set_conv_nth)
  let ?i = "length ar + j"
  have i: "length ar \<le> ?i" "?i < length ar'" using j by simp_all
  have "x = ar' ! ?i" using xj j by simp
  with c have "c \<in> set (children (ar' ! ?i))" by simp
  from fresh_part_children [OF assms(1) i this] i show ?thesis by simp
qed

lemma alloc_tree:
  "alloc t ar = (h, ar') \<Longrightarrow>
     Suc h = length ar' \<and> distinct (new_children ar ar')"
  and alloc_list_tree:
  "alloc_list ts ar = (hs, ar') \<Longrightarrow>
     distinct hs \<and> distinct (new_children ar ar') \<and> set hs \<inter> set (new_children ar ar') = {}"
proof (induction t ar and ts ar arbitrary: h ar' and hs ar' rule: alloc_alloc_list.induct)
  case (1 k ps ar)
  then show ?case by (auto simp: new_children_snoc new_children_refl)
next
  case (2 t m ar)
  obtain c ar1 where a: "alloc t ar = (c, ar1)" by (cases "alloc t ar")
  from "2.IH" [OF a] have c: "Suc c = length ar1" and d: "distinct (new_children ar ar1)"
    by simp_all
  from alloc_correct [OF a] have f1: "fresh_part ar ar1" by simp
  from "2.prems" a have h: "h = length ar1" and ar': "ar' = ar1 @ [TransformedCell c m]"
    by simp_all
  have "c \<notin> set (new_children ar ar1)"
    using new_children_bounds [OF f1, of c] c by auto
  with d show ?case
    by (simp add: h ar' new_children_snoc [OF fresh_part_length [OF f1]])
next
  case (3 op l r ar)
  obtain a ar1 where a: "alloc l ar = (a, ar1)" by (cases "alloc l ar")
  obtain b ar2 where b: "alloc r ar1 = (b, ar2)" by (cases "alloc r ar1")
  from "3.IH"(1) [OF a] have ca: "Suc a = length ar1" and da: "distinct (new_children ar ar1)"
    by simp_all
  from "3.IH"(2) [OF a [symmetric] b] have cb: "Suc b = length ar2"
    and db: "distinct (new_children ar1 ar2)" by simp_all
  from alloc_correct [OF a] have f1: "fresh_part ar ar1" by simp
  from alloc_correct [OF b] have f2: "fresh_part ar1 ar2" and lb: "length ar1 \<le> b" by simp_all
  have f: "fresh_part ar ar2" using f1 f2 by (rule fresh_part_trans)
  from "3.prems" a b have h: "h = length ar2" and ar': "ar' = ar2 @ [BooleanCell op a b]"
    by simp_all
  have k: "new_children ar ar2 = new_children ar ar1 @ new_children ar1 ar2"
    using f1 f2 by (rule new_children_trans)
  have disj: "set (new_children ar ar1) \<inter> set (new_children ar1 ar2) = {}"
    using new_children_bounds [OF f1] new_children_bounds [OF f2] by fastforce
  have a1: "a \<notin> set (new_children ar ar1)"
    using new_children_bounds [OF f1, of a] ca by auto
  have a2: "a \<notin> set (new_children ar1 ar2)"
    using new_children_bounds [OF f2, of a] ca by auto
  have b1: "b \<notin> set (new_children ar ar1)"
    using new_children_bounds [OF f1, of b] lb by auto
  have b2: "b \<notin> set (new_children ar1 ar2)"
    using new_children_bounds [OF f2, of b] cb by auto
  have "a \<noteq> b" using ca lb by simp
  with da db disj a1 a2 b1 b2 show ?case
    by (simp add: h ar' new_children_snoc [OF fresh_part_length [OF f]] k)
next
  case (4 ts ar)
  obtain cs ar1 where a: "alloc_list ts ar = (cs, ar1)" by (cases "alloc_list ts ar")
  from "4.IH" [OF a] have d: "distinct cs" "distinct (new_children ar ar1)"
    "set cs \<inter> set (new_children ar ar1) = {}" by simp_all
  from alloc_list_correct [OF a] have f1: "fresh_part ar ar1" by simp
  from "4.prems" a have h: "h = length ar1" and ar': "ar' = ar1 @ [GroupCell cs]"
    by simp_all
  from d show ?case
    by (auto simp: h ar' new_children_snoc [OF fresh_part_length [OF f1]])
next
  case (5 ar)
  then show ?case by (simp add: new_children_refl)
next
  case (6 t ts ar)
  obtain c ar1 where a: "alloc t ar = (c, ar1)" by (cases "alloc t ar")
  obtain cs ar2 where b: "alloc_list ts ar1 = (cs, ar2)" by (cases "alloc_list ts ar1")
  from "6.IH"(1) [OF a] have c: "Suc c = length ar1" and dc: "distinct (new_children ar ar1)"
    by simp_all
  from "6.IH"(2) [OF a [symmetric] b] have dcs: "distinct cs"
    and d2: "distinct (new_children ar1 ar2)"
    and i2: "set cs \<inter> set (new_children ar1 ar2) = {}" by simp_all
  from alloc_correct [OF a] have f1: "fresh_part ar ar1" by simp
  from alloc_list_correct [OF b] have f2: "fresh_part ar1 ar2"
    and bcs: "\<forall>x \<in> set cs. length ar1 \<le> x \<and> x < length ar2" by simp_all
  from "6.prems" a b have hs: "hs = c # cs" and ar': "ar' = ar2" by simp_all
  have k: "new_children ar ar2 = new_children ar ar1 @ new_children ar1 ar2"
    using f1 f2 by (rule new_children_trans)
  have disj: "set (new_children ar ar1) \<inter> set (new_children ar1 ar2) = {}"
    using new_children_bounds [OF f1] new_children_bounds [OF f2] by fastforce
  have c1: "c \<notin> set (new_children ar ar1)"
    using new_children_bounds [OF f1, of c] c by auto
  have c2: "c \<notin> set (new_children ar1 ar2)"
    using new_children_bounds [OF f2, of c] c by auto
  have c3: "c \<notin> set cs" using bcs c by auto
  have cs1: "set cs \<inter> set (new_children ar ar1) = {}"
    using new_children_bounds [OF f1] bcs by fastforce
  from dc dcs d2 i2 disj c1 c2 c3 cs1 show ?case
    by (auto simp: hs ar' k)
qed

lemma reach_fresh:
  assumes "fresh_part ar ar'" and "length ar \<le> h" and "h < length ar'"
    and "a \<in> reach ar' h"
  shows "length ar \<le> a \<and> a < length ar'"
  using assms(4)
proof (induction rule: reach.induct)
  case root
  show ?case using assms(2,3) by simp
next
  case (child a c)
  then have "length ar \<le> c \<and> c < a"
    using fresh_part_children [OF assms(1), of a c] by simp
  with child show ?case by simp
qed

lemma fresh_part_nth:
  assumes "fresh_part ar ar'" and "h < length ar"
  shows "ar' ! h = ar ! h"
  using assms by (auto elim!: fresh_partD simp: nth_append)

text \<open>What a combinator's allocation guarantees.\<close>

lemma alloc_pure:
  assumes "alloc n ar = (h', ar')"
  shows "(\<exists>new. ar' = ar @ new)
       \<and> (\<forall>h. h < length ar \<longrightarrow> ar' ! h = ar ! h \<and> node_of ar' h = node_of ar h)
       \<and> length ar \<le> h' \<and> h' < length ar'
       \<and> (\<forall>a \<in> reach ar' h'. length ar \<le> a \<and> a < length ar')
       \<and> distinct (new_children ar ar')
       \<and> node_of ar' h' = Some n"
proof -
  from alloc_correct [OF assms] have f: "fresh_part ar ar'" and lo: "length ar \<le> h'"
    and hi: "h' < length ar'" and n: "node_of ar' h' = Some n" by simp_all
  have "\<exists>new. ar' = ar @ new" using f by (auto elim: fresh_partD)
  moreover have "\<forall>h. h < length ar \<longrightarrow> ar' ! h = ar ! h \<and> node_of ar' h = node_of ar h"
    using fresh_part_nth [OF f] node_of_fresh [OF f] by simp
  moreover have "\<forall>a \<in> reach ar' h'. length ar \<le> a \<and> a < length ar'"
    using reach_fresh [OF f lo hi] by blast
  ultimately show ?thesis using lo hi n alloc_tree [OF assms] by simp
qed

lemma shapes_have_nodes:
  assumes "list_all (is_shape ar) hs"
  shows "\<exists>ns. map (node_of ar) hs = map Some ns \<and> those_list (map (node_of ar) hs) = Some ns
              \<and> length ns = length hs"
  using assms
proof (induction hs)
  case Nil
  then show ?case by simp
next
  case (Cons h hs)
  then obtain ns where ns: "map (node_of ar) hs = map Some ns"
    "those_list (map (node_of ar) hs) = Some ns" "length ns = length hs" by auto
  from Cons.prems obtain n where n: "node_of ar h = Some n" by (auto simp: is_shape_def)
  have "map (node_of ar) (h # hs) = map Some (n # ns)
      \<and> those_list (map (node_of ar) (h # hs)) = Some (n # ns)
      \<and> length (n # ns) = length (h # hs)"
    using n ns by simp
  then show ?case by blast
qed

text \<open>
  C2. A combinator whose operands are all valid handles returns a new handle and a store
  that is the old store with cells added at the end. Every old cell, and so the node every
  old handle refers to, is as before. The new handle and every cell it reaches are added
  cells, so the new node shares no cell with an operand, and no added cell is a child
  twice, so an operand given twice is copied twice. The node the new handle refers to is
  the combinator's node over the operands' nodes: the operands were copied whole.
\<close>

theorem combinators_pure:
  assumes "list_all (is_shape ar) (operands call)"
  shows "\<exists>h' ar' ns n.
           apply_combinator rotation ar call = Inr (h', ar')
         \<and> (\<exists>new. ar' = ar @ new)
         \<and> (\<forall>h. h < length ar \<longrightarrow> ar' ! h = ar ! h \<and> node_of ar' h = node_of ar h)
         \<and> length ar \<le> h' \<and> h' < length ar'
         \<and> (\<forall>a \<in> reach ar' h'. length ar \<le> a \<and> a < length ar')
         \<and> distinct (new_children ar ar')
         \<and> map (node_of ar) (operands call) = map Some ns
         \<and> result_node rotation call ns = Some n
         \<and> node_of ar' h' = Some n"
proof -
  obtain ns where ns: "map (node_of ar) (operands call) = map Some ns"
    and tl: "those_list (map (node_of ar) (operands call)) = Some ns"
    and len: "length ns = length (operands call)"
    using shapes_have_nodes [OF assms] by blast
  have "\<exists>n. result_node rotation call ns = Some n
           \<and> apply_combinator rotation ar call = Inr (alloc n ar)"
  proof (cases call)
    case (Translate h v)
    with len obtain x where "ns = [x]" by (cases ns) auto
    with Translate ns show ?thesis by (simp add: translate_def)
  next
    case (Rotate h axis theta)
    with len obtain x where "ns = [x]" by (cases ns) auto
    with Rotate ns show ?thesis by (simp add: rotate_shape_def)
  next
    case (Scale h v)
    with len obtain x where "ns = [x]" by (cases ns) auto
    with Scale ns show ?thesis by (simp add: scale_def)
  next
    case (UnionOf h1 h2 hs)
    with len obtain a b cs where "ns = a # b # cs"
      by (cases ns; simp) (metis length_Suc_conv)
    with UnionOf tl show ?thesis by (simp add: union_shapes_def)
  next
    case (IntersectOf h1 h2)
    with len obtain a b where "ns = [a, b]"
      by (cases ns; simp) (metis length_0_conv length_Suc_conv)
    with IntersectOf tl show ?thesis by (simp add: intersect_def)
  next
    case (SubtractOf h1 h2)
    with len obtain a b where "ns = [a, b]"
      by (cases ns; simp) (metis length_0_conv length_Suc_conv)
    with SubtractOf tl show ?thesis by (simp add: subtract_def)
  next
    case (GroupOf hs)
    with tl show ?thesis by (simp add: group_shapes_def)
  qed
  then obtain n where n: "result_node rotation call ns = Some n"
    and ap: "apply_combinator rotation ar call = Inr (alloc n ar)" by blast
  obtain h' ar' where al: "alloc n ar = (h', ar')" by (cases "alloc n ar")
  show ?thesis
    using alloc_pure [OF al] ns n ap al by auto
qed

lemma unit_cube_arena_node: "node_of unit_cube_arena 0 = Some (Primitive Cube [1])"
  by (simp add: unit_cube_arena_def node_of_def nodes_of_def lookup_def)

lemma unit_cube_arena_length: "length unit_cube_arena = 1"
  by (simp add: unit_cube_arena_def)

lemma flat_cube_arena_node:
  "node_of flat_cube_arena 2 = Some (Transformed (Primitive Cube [1]) (scaling (0, 1, 1)))"
  by (simp add: flat_cube_arena_def node_of_def nodes_of_def lookup_def)

lemma scale_unit_cube:
  "scale unit_cube_arena 0 (0, 1, 1) = Inr (2, flat_cube_arena)"
  by (simp add: scale_def unit_cube_arena_node scale_node_def)
     (simp add: unit_cube_arena_def flat_cube_arena_def)

lemma cubes_only_cube: "cubes_only Cube [1] = Inr (cube_mesh 1)"
  by (simp add: cubes_only_def generate_def)

theorem combinators_pure_witness:
  "list_all (is_shape unit_cube_arena) (operands (Scale 0 (0, 1, 1)))
   \<and> apply_combinator (\<lambda>axis theta. translation axis) unit_cube_arena (Scale 0 (0, 1, 1))
       = Inr (2, flat_cube_arena)
   \<and> length unit_cube_arena \<le> 2
   \<and> node_of flat_cube_arena 0 = node_of unit_cube_arena 0
   \<and> node_of flat_cube_arena 2 = Some (scale_node (0, 1, 1) (Primitive Cube [1]))"
proof -
  have h: "list_all (is_shape unit_cube_arena) (operands (Scale 0 (0, 1, 1)))"
    by (simp add: is_shape_def unit_cube_arena_node)
  have r: "apply_combinator (\<lambda>axis theta. translation axis) unit_cube_arena (Scale 0 (0, 1, 1))
       = Inr (2, flat_cube_arena)"
    by (simp add: scale_unit_cube)
  from combinators_pure [OF h, of "\<lambda>axis theta. translation axis"]
  obtain h' ar' ns n where
    "apply_combinator (\<lambda>axis theta. translation axis) unit_cube_arena (Scale 0 (0, 1, 1))
       = Inr (h', ar')"
    "\<forall>h. h < length unit_cube_arena \<longrightarrow> ar' ! h = unit_cube_arena ! h \<and> node_of ar' h = node_of unit_cube_arena h"
    "length unit_cube_arena \<le> h'"
    "map (node_of unit_cube_arena) (operands (Scale 0 (0, 1, 1))) = map Some ns"
    "result_node (\<lambda>axis theta. translation axis) (Scale 0 (0, 1, 1)) ns = Some n"
    "node_of ar' h' = Some n"
    by blast
  with r h show ?thesis
    by (auto simp: unit_cube_arena_node unit_cube_arena_length)
qed


section \<open>The metrics of the unit cube\<close>

lemma shape_mesh_alloc:
  assumes "alloc n ar = (h', ar')"
  shows "shape_mesh gen combine ar' h' = materialize gen combine n"
  using alloc_correct [OF assms] by (simp add: shape_mesh_def)

text \<open>
  C5. The unit cube: twelve triangles, volume 1 by the signed tetrahedra and area 6 by the
  triangle areas.
\<close>

theorem unit_cube_metrics:
  assumes "cube ar 1 = Inr (h, ar')"
  shows "shape_mesh (generate tessellate) combine ar' h = Inr (cube_mesh 1)
       \<and> length (cube_mesh 1) = 12
       \<and> volume (generate tessellate) combine ar' h = Inr 1
       \<and> area (generate tessellate) combine ar' h = Inr 6"
proof -
  from assms have al: "alloc (Primitive Cube [1]) ar = (h, ar')"
    by (simp add: cube_def)
  have "shape_mesh (generate tessellate) combine ar' h = Inr (cube_mesh 1)"
    by (simp add: shape_mesh_alloc [OF al] generate_def)
  then show ?thesis
    by (simp add: volume_def area_def unit_cube_volume unit_cube_area cube_mesh_length)
qed

theorem unit_cube_metrics_witness:
  "cube [] 1 = Inr (0, unit_cube_arena)
   \<and> volume cubes_only no_booleans unit_cube_arena 0 = Inr 1
   \<and> area cubes_only no_booleans unit_cube_arena 0 = Inr 6"
proof -
  have c: "cube [] 1 = Inr (0, unit_cube_arena)"
    by (simp add: cube_def unit_cube_arena_def)
  show ?thesis
    using unit_cube_metrics [OF c, of "\<lambda>kind params. Inl InvalidParameter" no_booleans] c
    by (simp add: cubes_only_def)
qed


section \<open>Degenerate scale\<close>

lemma scaled_tetrahedron:
  "signed_tetrahedron (transform_triangle (scaling (sx, sy, sz)) t)
     = sx * sy * sz * signed_tetrahedron t"
proof -
  obtain a1 a2 a3 b1 b2 b3 c1 c2 c3 where t: "t = ((a1, a2, a3), (b1, b2, b3), (c1, c2, c3))"
    by (metis prod_cases3)
  show ?thesis unfolding t by (simp add: algebra_simps)
qed

lemma scaled_volume:
  "mesh_volume (map (transform_triangle (scaling (sx, sy, sz))) m)
     = sx * sy * sz * mesh_volume m"
proof -
  have "sum_list (map signed_tetrahedron (map (transform_triangle (scaling (sx, sy, sz))) m))
      = sx * sy * sz * sum_list (map signed_tetrahedron m)"
    by (induction m) (simp_all add: scaled_tetrahedron algebra_simps
          del: signed_tetrahedron.simps transform_triangle.simps scaling.simps)
  then show ?thesis by (simp only: mesh_volume_def)
qed







section \<open>Re-centering\<close>

lemma vadd_vsub_cancel: "vadd c (vsub p c) = p"
  by (cases c; cases p) simp

text \<open>
  C3, as stated, fails for a shape without volume: the unit cube scaled flat along
  \<open>x\<close> is a valid shape, and re-centering it fails with \<open>DegenerateMesh\<close>.
\<close>

theorem recenter_flat_cube_fails:
  "is_shape flat_cube_arena 2
   \<and> shape_set_center (1 / 10 ^ 9) cubes_only no_booleans flat_cube_arena 2 (1, 2, 3)
       = Inl DegenerateMesh"
proof -
  have "mesh_volume (map (transform_triangle (scaling (0, 1, 1))) (cube_mesh 1)) = 0"
    by (simp only: scaled_volume mult_zero_left)
  then show ?thesis
    by (simp add: is_shape_def shape_set_center_def shape_center_def shape_mesh_def
          flat_cube_arena_node cubes_only_cube mesh_centroid_def del: scaling.simps)
qed

text \<open>
  C3, amended. For a shape whose mesh is watertight and whose volume is not within
  \<open>eps\<close> of zero, and for every target \<open>p\<close>, \<open>shape_set_center\<close> succeeds
  and the centre of the shape it returns is \<open>p\<close>. The store is the old one with cells
  added, the node of the old handle is as before, and the new node is the old node under
  the translation by \<open>p\<close> minus the old centre.
\<close>

theorem recenter_moves_center:
  assumes "shape_mesh gen combine ar h = Inr m"
      and "watertight m" and "0 < eps" and "eps \<le> \<bar>mesh_volume m\<bar>"
  shows "\<exists>h' ar' n c.
           shape_set_center eps gen combine ar h p = Inr (h', ar')
         \<and> shape_center eps gen combine ar' h' = Inr p
         \<and> (\<exists>new. ar' = ar @ new)
         \<and> node_of ar' h = node_of ar h
         \<and> length ar \<le> h'
         \<and> node_of ar h = Some n
         \<and> shape_center eps gen combine ar h = Inr c
         \<and> node_of ar' h' = Some (Transformed n (translation (vsub p c)))"
proof -
  from assms(1) obtain n where n: "node_of ar h = Some n"
    and mat: "materialize gen combine n = Inr m"
    by (auto simp: shape_mesh_def split: option.splits)
  have hlt: "h < length ar" using n by (rule node_of_Some_less)
  obtain c where c: "mesh_centroid eps m = Inr c"
    using assms(4) by (simp add: mesh_centroid_def)
  have sc: "shape_center eps gen combine ar h = Inr c"
    by (simp add: shape_center_def assms(1) c)
  obtain h' ar' where al: "alloc (translate_node (vsub p c) n) ar = (h', ar')"
    by (cases "alloc (translate_node (vsub p c) n) ar")
  have res: "shape_set_center eps gen combine ar h p = Inr (h', ar')"
    by (simp add: shape_set_center_def n sc al)
  have "shape_mesh gen combine ar' h'
      = Inr (map (transform_triangle (translation (vsub p c))) m)"
    by (simp add: shape_mesh_alloc [OF al] translate_node_def mat)
  then have "shape_center eps gen combine ar' h' = Inr (vadd c (vsub p c))"
    by (simp add: shape_center_def centroid_translate [OF assms(2,3) c])
  then have cen: "shape_center eps gen combine ar' h' = Inr p"
    by (simp only: vadd_vsub_cancel)
  from alloc_pure [OF al] hlt
  have "\<exists>new. ar' = ar @ new" and "node_of ar' h = node_of ar h" and "length ar \<le> h'"
    and "node_of ar' h' = Some (Transformed n (translation (vsub p c)))"
    by (simp_all add: translate_node_def)
  with res cen n sc show ?thesis by blast
qed

theorem recenter_moves_center_witness:
  "shape_mesh cubes_only no_booleans unit_cube_arena 0 = Inr (cube_mesh 1)
   \<and> watertight (cube_mesh 1)
   \<and> (0::real) < 1 / 10 ^ 9
   \<and> 1 / 10 ^ 9 \<le> \<bar>mesh_volume (cube_mesh 1)\<bar>
   \<and> (\<exists>h' ar'.
          shape_set_center (1 / 10 ^ 9) cubes_only no_booleans unit_cube_arena 0 (1, 2, 3)
            = Inr (h', ar')
        \<and> shape_center (1 / 10 ^ 9) cubes_only no_booleans ar' h' = Inr (1, 2, 3))"
proof -
  have m: "shape_mesh cubes_only no_booleans unit_cube_arena 0 = Inr (cube_mesh 1)"
    by (simp add: shape_mesh_def unit_cube_arena_node cubes_only_cube)
  have e: "(0::real) < 1 / 10 ^ 9" by simp
  have v: "(1::real) / 10 ^ 9 \<le> \<bar>mesh_volume (cube_mesh 1)\<bar>"
    by (simp add: unit_cube_volume)
  from recenter_moves_center [OF m unit_cube_watertight e v, of "(1, 2, 3)"]
  have "\<exists>h' ar'.
          shape_set_center (1 / 10 ^ 9) cubes_only no_booleans unit_cube_arena 0 (1, 2, 3)
            = Inr (h', ar')
        \<and> shape_center (1 / 10 ^ 9) cubes_only no_booleans ar' h' = Inr (1, 2, 3)"
    by blast
  with m unit_cube_watertight e v show ?thesis by blast
qed

end
